theory Spec2Isabelle
  imports Main "HOL-Library.AList"
begin

section \<open>The push session of \<open>octoprint/server/util.py\<close>\<close>

text \<open>
  The class \<open>PrinterStateConnection\<close> is embedded as functions on an explicit state.
  The state holds the three backlog lists of the object, the store of the dictionary
  objects that callers hand to \<open>sendCurrentData\<close> (the method changes its argument in
  place, so the argument is an address), and the trace of the calls the session makes
  on its collaborators: the logger, the printer, the gcode manager, the timelapse
  module, the event manager and the transport (\<open>self.send\<close>).

  The collaborators are not part of the file. A call on one of them is recorded in the
  trace and either returns or raises; which it does is a parameter \<open>fails\<close> of every
  operation. No method of the class has a \<open>try\<close> block, so an exception raised by a
  collaborator ends the method at that call and reaches the caller.

  The three mutexes guard single list operations; the model is sequential, so a
  \<open>with\<close> block is the statement it guards.
\<close>

subsection \<open>Values\<close>

datatype pyval =
    PNone
  | PBool bool
  | PInt int
  | PStr string
  | PList "pyval list"
  | PDict "(string \<times> pyval) list"
  | PRef nat

type_synonym pydict = "(string \<times> pyval) list"

text \<open>
  \<open>PDict\<close> is a dictionary written out as a value (a literal of the source);
  \<open>PRef a\<close> is the dictionary object stored at address \<open>a\<close>.
  \<open>d[k] = v\<close> replaces the value of a key that is present and adds the key otherwise;
  \<open>d.update(other)\<close> does so for every item of \<open>other\<close>.
\<close>

definition dict_setitem :: "string \<Rightarrow> pyval \<Rightarrow> pydict \<Rightarrow> pydict" where
  "dict_setitem k v d = AList.update k v d"

fun dict_update :: "pydict \<Rightarrow> pydict \<Rightarrow> pydict" where
  "dict_update d [] = d"
| "dict_update d ((k, v) # other) = dict_update (dict_setitem k v d) other"

definition dict_get :: "pydict \<Rightarrow> string \<Rightarrow> pyval option" where
  "dict_get d k = map_of d k"

definition dict_keys :: "pydict \<Rightarrow> string set" where
  "dict_keys d = fst ` set d"

subsection \<open>Collaborators, calls and errors\<close>

datatype producer = Printer | GcodeManager | TimelapseModule

datatype handler = OnMovieDone | OnSlicingStarted | OnSlicingDone | OnSlicingFailed

datatype call =
    LoggerInfo string
  | RegisterCallback producer
  | UnregisterCallback producer
  | Fire string
  | Subscribe string handler
  | Unsubscribe string handler
  | NotifyCallbacks
  | Send pyval

datatype error = Raised call | AttributeError

record session =
  temperatureBacklog :: "pyval list"
  logBacklog :: "pyval list"
  messageBacklog :: "pyval list"
  objs :: "nat \<Rightarrow> pydict option"
  calls :: "call list"

type_synonym stmt = "session \<Rightarrow> error option \<times> session"

text \<open>A call on a collaborator: it is made (and recorded), then it returns or raises.\<close>

definition ext_call :: "(call \<Rightarrow> bool) \<Rightarrow> call \<Rightarrow> stmt" where
  "ext_call fails c s =
     (if fails c then Some (Raised c) else None, s\<lparr>calls := calls s @ [c]\<rparr>)"

text \<open>Statements in sequence: the first one that raises ends the method.\<close>

fun stmts :: "stmt list \<Rightarrow> stmt" where
  "stmts [] s = (None, s)"
| "stmts (f # fs) s =
     (case f s of
        (Some e, s') \<Rightarrow> (Some e, s')
      | (None, s') \<Rightarrow> stmts fs s')"

definition no_failures :: "call \<Rightarrow> bool" where
  "no_failures c = False"

fun dead_transport :: "call \<Rightarrow> bool" where
  "dead_transport (Send frame) = True"
| "dead_transport c = False"

subsection \<open>Construction\<close>

text \<open>\<open>__init__\<close>: three empty backlogs. Nothing has been called yet.\<close>

definition init_session :: "(nat \<Rightarrow> pydict option) \<Rightarrow> session" where
  "init_session store =
     \<lparr>temperatureBacklog = [], logBacklog = [], messageBacklog = [],
      objs = store, calls = []\<rparr>"

subsection \<open>Lifecycle hooks\<close>

record conn_info =
  forwarded_for :: "string option"
  ip :: string

text \<open>
  \<open>_getRemoteAddress\<close>: the part of the \<open>X-Forwarded-For\<close> header before its first
  comma when the header is there, the peer address otherwise.
\<close>

definition getRemoteAddress :: "conn_info \<Rightarrow> string" where
  "getRemoteAddress info =
     (case forwarded_for info of
        Some forwardedFor \<Rightarrow> takeWhile (\<lambda>c. c \<noteq> CHR '','') forwardedFor
      | None \<Rightarrow> ip info)"

definition on_open :: "(call \<Rightarrow> bool) \<Rightarrow> conn_info \<Rightarrow> stmt" where
  "on_open fails info =
     stmts
      [ext_call fails (LoggerInfo (''New connection from client: '' @ getRemoteAddress info)),
       ext_call fails (RegisterCallback Printer),
       ext_call fails (RegisterCallback GcodeManager),
       ext_call fails (RegisterCallback TimelapseModule),
       ext_call fails (Fire ''ClientOpened''),
       ext_call fails (Subscribe ''MovieDone'' OnMovieDone),
       ext_call fails (Subscribe ''SlicingStarted'' OnSlicingStarted),
       ext_call fails (Subscribe ''SlicingDone'' OnSlicingDone),
       ext_call fails (Subscribe ''SlicingFailed'' OnSlicingFailed),
       ext_call fails NotifyCallbacks]"

definition on_close :: "(call \<Rightarrow> bool) \<Rightarrow> stmt" where
  "on_close fails =
     stmts
      [ext_call fails (LoggerInfo ''Closed client connection''),
       ext_call fails (UnregisterCallback Printer),
       ext_call fails (UnregisterCallback GcodeManager),
       ext_call fails (UnregisterCallback TimelapseModule),
       ext_call fails (Fire ''ClientClosed''),
       ext_call fails (Unsubscribe ''MovieDone'' OnMovieDone),
       ext_call fails (Unsubscribe ''SlicingStarted'' OnSlicingStarted),
       ext_call fails (Unsubscribe ''SlicingDone'' OnSlicingDone),
       ext_call fails (Unsubscribe ''SlicingFailed'' OnSlicingFailed)]"

definition on_message :: "pyval \<Rightarrow> stmt" where
  "on_message message s = (None, s)"

subsection \<open>Emit operations\<close>

text \<open>\<open>_emit\<close>: one \<open>self.send\<close> of the dictionary \<open>{type: payload}\<close>.\<close>

definition emit :: "(call \<Rightarrow> bool) \<Rightarrow> string \<Rightarrow> pyval \<Rightarrow> stmt" where
  "emit fails type payload = ext_call fails (Send (PDict [(type, payload)]))"

text \<open>
  \<open>sendCurrentData\<close>: each backlog is taken and replaced by a new empty list, then
  \<open>data.update\<close> stores the three lists in the caller's object, then the object is
  emitted. An argument that is not a dictionary object has no \<open>update\<close>: the
  attribute lookup raises after the backlogs have been taken.
\<close>

definition sendCurrentData :: "(call \<Rightarrow> bool) \<Rightarrow> nat \<Rightarrow> stmt" where
  "sendCurrentData fails data s =
     (let temperatures = temperatureBacklog s;
          s1 = s\<lparr>temperatureBacklog := []\<rparr>;
          logs = logBacklog s1;
          s2 = s1\<lparr>logBacklog := []\<rparr>;
          messages = messageBacklog s2;
          s3 = s2\<lparr>messageBacklog := []\<rparr>
      in case objs s3 data of
           None \<Rightarrow> (Some AttributeError, s3)
         | Some d \<Rightarrow>
             emit fails ''current'' (PRef data)
               (s3\<lparr>objs := (objs s3)(data \<mapsto>
                  dict_update d
                    [(''temperatures'', PList temperatures),
                     (''logs'', PList logs),
                     (''messages'', PList messages)])\<rparr>))"

definition sendHistoryData :: "(call \<Rightarrow> bool) \<Rightarrow> pyval \<Rightarrow> stmt" where
  "sendHistoryData fails data = emit fails ''history'' data"

definition sendUpdateTrigger :: "(call \<Rightarrow> bool) \<Rightarrow> pyval \<Rightarrow> pyval \<Rightarrow> stmt" where
  "sendUpdateTrigger fails type payload =
     emit fails ''updateTrigger'' (PDict [(''type'', type), (''payload'', payload)])"

definition sendFeedbackCommandOutput :: "(call \<Rightarrow> bool) \<Rightarrow> pyval \<Rightarrow> pyval \<Rightarrow> stmt" where
  "sendFeedbackCommandOutput fails name output =
     emit fails ''feedbackCommandOutput'' (PDict [(''name'', name), (''output'', output)])"

definition sendTimelapseConfig :: "(call \<Rightarrow> bool) \<Rightarrow> pyval \<Rightarrow> stmt" where
  "sendTimelapseConfig fails timelapseConfig = emit fails ''timelapse'' timelapseConfig"

subsection \<open>Producer callbacks\<close>

definition addLog :: "pyval \<Rightarrow> stmt" where
  "addLog data s = (None, s\<lparr>logBacklog := logBacklog s @ [data]\<rparr>)"

definition addMessage :: "pyval \<Rightarrow> stmt" where
  "addMessage data s = (None, s\<lparr>messageBacklog := messageBacklog s @ [data]\<rparr>)"

definition addTemperature :: "pyval \<Rightarrow> stmt" where
  "addTemperature data s = (None, s\<lparr>temperatureBacklog := temperatureBacklog s @ [data]\<rparr>)"

subsection \<open>Event handlers\<close>

text \<open>
  \<open>_onMovieDone\<close> leaves the second parameter of \<open>sendUpdateTrigger\<close> at its
  default, \<open>None\<close>; the three slicing handlers pass the event's payload on.
\<close>

definition onMovieDone :: "(call \<Rightarrow> bool) \<Rightarrow> pyval \<Rightarrow> pyval \<Rightarrow> stmt" where
  "onMovieDone fails event payload = sendUpdateTrigger fails (PStr ''timelapseFiles'') PNone"

definition onSlicingStarted :: "(call \<Rightarrow> bool) \<Rightarrow> pyval \<Rightarrow> pyval \<Rightarrow> stmt" where
  "onSlicingStarted fails event payload = sendUpdateTrigger fails (PStr ''slicingStarted'') payload"

definition onSlicingDone :: "(call \<Rightarrow> bool) \<Rightarrow> pyval \<Rightarrow> pyval \<Rightarrow> stmt" where
  "onSlicingDone fails event payload = sendUpdateTrigger fails (PStr ''slicingDone'') payload"

definition onSlicingFailed :: "(call \<Rightarrow> bool) \<Rightarrow> pyval \<Rightarrow> pyval \<Rightarrow> stmt" where
  "onSlicingFailed fails event payload = sendUpdateTrigger fails (PStr ''slicingFailed'') payload"

text \<open>The bound method that a subscription names.\<close>

fun run_handler :: "(call \<Rightarrow> bool) \<Rightarrow> handler \<Rightarrow> pyval \<Rightarrow> pyval \<Rightarrow> stmt" where
  "run_handler fails OnMovieDone = onMovieDone fails"
| "run_handler fails OnSlicingStarted = onSlicingStarted fails"
| "run_handler fails OnSlicingDone = onSlicingDone fails"
| "run_handler fails OnSlicingFailed = onSlicingFailed fails"

subsection \<open>Calls from outside\<close>

text \<open>
  The methods that the transport, the producers and the event manager call on a
  session. Each call is on its own: an exception goes to the caller of that call, and
  the next call finds the state the last one left.
\<close>

datatype op =
    OnOpen conn_info
  | OnClose
  | OnMessage pyval
  | SendCurrentData nat
  | SendHistoryData pyval
  | SendUpdateTrigger pyval pyval
  | SendFeedbackCommandOutput pyval pyval
  | SendTimelapseConfig pyval
  | AddLog pyval
  | AddMessage pyval
  | AddTemperature pyval
  | Handle handler pyval pyval

fun run_op :: "(call \<Rightarrow> bool) \<Rightarrow> op \<Rightarrow> stmt" where
  "run_op fails (OnOpen info) = on_open fails info"
| "run_op fails OnClose = on_close fails"
| "run_op fails (OnMessage message) = on_message message"
| "run_op fails (SendCurrentData data) = sendCurrentData fails data"
| "run_op fails (SendHistoryData data) = sendHistoryData fails data"
| "run_op fails (SendUpdateTrigger type payload) = sendUpdateTrigger fails type payload"
| "run_op fails (SendFeedbackCommandOutput name output) = sendFeedbackCommandOutput fails name output"
| "run_op fails (SendTimelapseConfig timelapseConfig) = sendTimelapseConfig fails timelapseConfig"
| "run_op fails (AddLog data) = addLog data"
| "run_op fails (AddMessage data) = addMessage data"
| "run_op fails (AddTemperature data) = addTemperature data"
| "run_op fails (Handle h event payload) = run_handler fails h event payload"

fun run_ops :: "(call \<Rightarrow> bool) \<Rightarrow> op list \<Rightarrow> session \<Rightarrow> session" where
  "run_ops fails [] s = s"
| "run_ops fails (x # xs) s = run_ops fails xs (snd (run_op fails x s))"

subsection \<open>Vocabulary of the properties\<close>

text \<open>The operations that write to the connection, and the one that drains.\<close>

fun is_emit :: "op \<Rightarrow> bool" where
  "is_emit (SendCurrentData data) = True"
| "is_emit (SendHistoryData data) = True"
| "is_emit (SendUpdateTrigger type payload) = True"
| "is_emit (SendFeedbackCommandOutput name output) = True"
| "is_emit (SendTimelapseConfig timelapseConfig) = True"
| "is_emit (Handle h event payload) = True"
| "is_emit x = False"

fun is_drain :: "op \<Rightarrow> bool" where
  "is_drain (SendCurrentData data) = True"
| "is_drain x = False"

text \<open>The producer callbacks that append a record to a backlog.\<close>

fun is_push :: "op \<Rightarrow> bool" where
  "is_push (AddLog data) = True"
| "is_push (AddMessage data) = True"
| "is_push (AddTemperature data) = True"
| "is_push x = False"

text \<open>A session just created or just drained: its three backlogs are empty.\<close>

definition drained :: "session \<Rightarrow> bool" where
  "drained s = (temperatureBacklog s = [] \<and> logBacklog s = [] \<and> messageBacklog s = [])"

text \<open>The records that a sequence of calls appends to each backlog, in call order.\<close>

fun appended_temperatures :: "op list \<Rightarrow> pyval list" where
  "appended_temperatures [] = []"
| "appended_temperatures (AddTemperature r # xs) = r # appended_temperatures xs"
| "appended_temperatures (x # xs) = appended_temperatures xs"

fun appended_logs :: "op list \<Rightarrow> pyval list" where
  "appended_logs [] = []"
| "appended_logs (AddLog r # xs) = r # appended_logs xs"
| "appended_logs (x # xs) = appended_logs xs"

fun appended_messages :: "op list \<Rightarrow> pyval list" where
  "appended_messages [] = []"
| "appended_messages (AddMessage r # xs) = r # appended_messages xs"
| "appended_messages (x # xs) = appended_messages xs"

definition frame_tags :: "string list" where
  "frame_tags = [''current'', ''history'', ''updateTrigger'', ''feedbackCommandOutput'', ''timelapse'']"

text \<open>A frame is one object with one key, and the key is a frame tag.\<close>

fun well_framed :: "pyval \<Rightarrow> bool" where
  "well_framed (PDict [(tag, payload)]) = (tag \<in> set frame_tags)"
| "well_framed frame = False"

fun sends_well_framed :: "call \<Rightarrow> bool" where
  "sends_well_framed (Send frame) = well_framed frame"
| "sends_well_framed c = True"

text \<open>Some \<open>a\<close> comes before some later \<open>b\<close> in a trace.\<close>

fun occurs_before :: "'a \<Rightarrow> 'a \<Rightarrow> 'a list \<Rightarrow> bool" where
  "occurs_before a b [] = False"
| "occurs_before a b (x # xs) = ((x = a \<and> b \<in> set xs) \<or> occurs_before a b xs)"

text \<open>The collaborator on which exactly the call \<open>c\<close> raises.\<close>

definition fails_at :: "call \<Rightarrow> call \<Rightarrow> bool" where
  "fails_at c x = (x = c)"

text \<open>The calls of \<open>on_open\<close> and of \<open>on_close\<close>, in the order of the source lines.\<close>

definition open_calls :: "conn_info \<Rightarrow> call list" where
  "open_calls info =
     [LoggerInfo (''New connection from client: '' @ getRemoteAddress info),
      RegisterCallback Printer,
      RegisterCallback GcodeManager,
      RegisterCallback TimelapseModule,
      Fire ''ClientOpened'',
      Subscribe ''MovieDone'' OnMovieDone,
      Subscribe ''SlicingStarted'' OnSlicingStarted,
      Subscribe ''SlicingDone'' OnSlicingDone,
      Subscribe ''SlicingFailed'' OnSlicingFailed,
      NotifyCallbacks]"

definition close_calls :: "call list" where
  "close_calls =
     [LoggerInfo ''Closed client connection'',
      UnregisterCallback Printer,
      UnregisterCallback GcodeManager,
      UnregisterCallback TimelapseModule,
      Fire ''ClientClosed'',
      Unsubscribe ''MovieDone'' OnMovieDone,
      Unsubscribe ''SlicingStarted'' OnSlicingStarted,
      Unsubscribe ''SlicingDone'' OnSlicingDone,
      Unsubscribe ''SlicingFailed'' OnSlicingFailed]"

subsection \<open>The transport under the session\<close>

text \<open>
  Modelled from the spec: the transport is not under \<open>src/\<close>. The class inherits
  \<open>send\<close> from the connection class of the socket library, and the library calls
  \<open>on_close\<close> when the client has disconnected. The spec has \<open>Closed\<close> as the
  terminal state of a session, reached by \<open>on_close\<close>, and has the client of a
  session that is no longer open receive nothing (``pushes after close are dropped, not
  faulted'', ``the connected client simply stops receiving frames''). So a connection
  is the session of the class together with the state of its transport and the frames
  that have reached the client.
\<close>

record connection =
  sess :: session
  is_closed :: bool
  received :: "pyval list"

text \<open>
  Modelled from the spec: the messages of a list of calls that \<open>send\<close> has passed on,
  those of the calls of \<open>send\<close> that returned.
\<close>

fun sent_frames :: "(call \<Rightarrow> bool) \<Rightarrow> call list \<Rightarrow> pyval list" where
  "sent_frames fails [] = []"
| "sent_frames fails (Send frame # cs) =
     (if fails (Send frame) then [] else [frame]) @ sent_frames fails cs"
| "sent_frames fails (c # cs) = sent_frames fails cs"

text \<open>
  Modelled from the spec: one call on the session of a connection. The method of the
  class runs as it does on any session; what it gave to \<open>send\<close> reaches the client
  when the transport was open, and the transport is closed from the call of
  \<open>on_close\<close> on.
\<close>

definition conn_call :: "(call \<Rightarrow> bool) \<Rightarrow> op \<Rightarrow> connection \<Rightarrow> connection" where
  "conn_call fails x c =
     (let s' = snd (run_op fails x (sess c));
          made = drop (length (calls (sess c))) (calls s')
      in \<lparr>sess = s',
          is_closed = (is_closed c \<or> x = OnClose),
          received = received c @ (if is_closed c then [] else sent_frames fails made)\<rparr>)"

text \<open>Modelled from the spec: calls on the session of a connection, one after the other.\<close>

fun conn_calls :: "(call \<Rightarrow> bool) \<Rightarrow> op list \<Rightarrow> connection \<Rightarrow> connection" where
  "conn_calls fails [] c = c"
| "conn_calls fails (x # xs) c = conn_calls fails xs (conn_call fails x c)"

section \<open>Sequences of collaborator calls\<close>

text \<open>
  A method that is a sequence of collaborator calls makes them in order up to and
  with the first one that raises, and raises what that call raised.
\<close>

lemma stmts_ext_call_Cons:
  "stmts (ext_call fails c # fs) s =
     (if fails c then (Some (Raised c), s\<lparr>calls := calls s @ [c]\<rparr>)
      else stmts fs (s\<lparr>calls := calls s @ [c]\<rparr>))"
  by (simp add: ext_call_def)

lemma stmts_ext_calls_ok:
  "\<forall>c\<in>set cs. \<not> fails c \<Longrightarrow>
     stmts (map (ext_call fails) cs) s = (None, s\<lparr>calls := calls s @ cs\<rparr>)"
proof (induction cs arbitrary: s)
  case Nil
  show ?case by simp
next
  case (Cons c cs)
  from Cons.prems have c: "\<not> fails c" and rest: "\<forall>c\<in>set cs. \<not> fails c" by simp_all
  have "stmts (map (ext_call fails) (c # cs)) s =
        stmts (map (ext_call fails) cs) (s\<lparr>calls := calls s @ [c]\<rparr>)"
    using c by (simp only: list.map stmts_ext_call_Cons if_False)
  also have "\<dots> = (None, s\<lparr>calls := calls s @ [c]\<rparr>\<lparr>calls := calls (s\<lparr>calls := calls s @ [c]\<rparr>) @ cs\<rparr>)"
    by (rule Cons.IH [OF rest])
  also have "\<dots> = (None, s\<lparr>calls := calls s @ c # cs\<rparr>)" by simp
  finally show ?case .
qed


lemma stmts_ext_calls_raise:
  "\<forall>x\<in>set pre. \<not> fails x \<Longrightarrow> fails c \<Longrightarrow>
     stmts (map (ext_call fails) (pre @ c # post)) s =
       (Some (Raised c), s\<lparr>calls := calls s @ pre @ [c]\<rparr>)"
proof (induction pre arbitrary: s)
  case Nil
  then show ?case by (simp only: append_Nil list.map stmts_ext_call_Cons if_True)
next
  case (Cons x pre)
  from Cons.prems have x: "\<not> fails x" and rest: "\<forall>x\<in>set pre. \<not> fails x" by simp_all
  have "stmts (map (ext_call fails) ((x # pre) @ c # post)) s =
        stmts (map (ext_call fails) (pre @ c # post)) (s\<lparr>calls := calls s @ [x]\<rparr>)"
    using x by (simp only: append_Cons list.map stmts_ext_call_Cons if_False)
  also have "\<dots> = (Some (Raised c),
      s\<lparr>calls := calls s @ [x]\<rparr>\<lparr>calls := calls (s\<lparr>calls := calls s @ [x]\<rparr>) @ pre @ [c]\<rparr>)"
    by (rule Cons.IH [OF rest Cons.prems(2)])
  also have "\<dots> = (Some (Raised c), s\<lparr>calls := calls s @ (x # pre) @ [c]\<rparr>)" by simp
  finally show ?case .
qed

lemma stmts_ext_calls_first_failure:
  assumes "\<not> (\<forall>c\<in>set cs. \<not> fails c)"
  shows "stmts (map (ext_call fails) cs) s =
       (Some (Raised (hd (dropWhile (\<lambda>c. \<not> fails c) cs))),
        s\<lparr>calls := calls s @ takeWhile (\<lambda>c. \<not> fails c) cs
                     @ [hd (dropWhile (\<lambda>c. \<not> fails c) cs)]\<rparr>)"
proof -
  let ?pre = "takeWhile (\<lambda>c. \<not> fails c) cs"
  let ?rest = "dropWhile (\<lambda>c. \<not> fails c) cs"
  from assms have ne: "?rest \<noteq> []" by (simp add: dropWhile_eq_Nil_conv)
  then have bad: "fails (hd ?rest)" using hd_dropWhile [of "\<lambda>c. \<not> fails c" cs] by simp
  have good: "\<forall>x\<in>set ?pre. \<not> fails x" by (auto dest: set_takeWhileD)
  have "?pre @ hd ?rest # tl ?rest = cs" using ne by simp
  then have "stmts (map (ext_call fails) cs) s =
      stmts (map (ext_call fails) (?pre @ hd ?rest # tl ?rest)) s" by (rule arg_cong [symmetric, where f = "\<lambda>l. stmts (map (ext_call fails) l) s"])
  also have "\<dots> = (Some (Raised (hd ?rest)), s\<lparr>calls := calls s @ ?pre @ [hd ?rest]\<rparr>)"
    by (rule stmts_ext_calls_raise [OF good bad])
  finally show ?thesis .
qed

lemma stmts_ext_calls_fst_None:
  "fst (stmts (map (ext_call fails) cs) s) = None \<longleftrightarrow> (\<forall>c\<in>set cs. \<not> fails c)"
proof (cases "\<forall>c\<in>set cs. \<not> fails c")
  case True
  then show ?thesis by (simp add: stmts_ext_calls_ok)
next
  case False
  then show ?thesis by (simp only: stmts_ext_calls_first_failure [OF False] fst_conv) simp
qed

lemma on_close_steps: "on_close fails = stmts (map (ext_call fails) close_calls)"
  by (simp only: on_close_def close_calls_def list.map)

lemma on_open_steps: "on_open fails info = stmts (map (ext_call fails) (open_calls info))"
  by (simp only: on_open_def open_calls_def list.map)

section \<open>The emit operations, step by step\<close>

lemmas emit_defs = sendHistoryData_def sendUpdateTrigger_def sendFeedbackCommandOutput_def
  sendTimelapseConfig_def onMovieDone_def onSlicingStarted_def onSlicingDone_def
  onSlicingFailed_def emit_def ext_call_def

lemma dict_get_setitem: "dict_get (dict_setitem k v d) k' = (if k' = k then Some v else dict_get d k')"
  by (simp add: dict_get_def dict_setitem_def update_conv')

lemma dict_keys_setitem: "dict_keys (dict_setitem k v d) = insert k (dict_keys d)"
  by (simp add: dict_keys_def dict_setitem_def dom_update)

lemma dict_get_backlogs:
  "dict_get (dict_update d [(''temperatures'', t), (''logs'', l), (''messages'', m)]) k =
     (if k = ''messages'' then Some m
      else if k = ''logs'' then Some l
      else if k = ''temperatures'' then Some t
      else dict_get d k)"
  by (simp add: dict_get_setitem)

lemma dict_keys_backlogs:
  "dict_keys (dict_update d [(''temperatures'', t), (''logs'', l), (''messages'', m)]) =
     {''temperatures'', ''logs'', ''messages''} \<union> dict_keys d"
  by (auto simp add: dict_keys_setitem)

lemma sendCurrentData_result:
  assumes "objs s data = Some d"
  shows "sendCurrentData fails data s =
    (if fails (Send (PDict [(''current'', PRef data)]))
     then Some (Raised (Send (PDict [(''current'', PRef data)]))) else None,
     s\<lparr>temperatureBacklog := [], logBacklog := [], messageBacklog := [],
       objs := (objs s)(data \<mapsto>
          dict_update d
            [(''temperatures'', PList (temperatureBacklog s)),
             (''logs'', PList (logBacklog s)),
             (''messages'', PList (messageBacklog s))]),
       calls := calls s @ [Send (PDict [(''current'', PRef data)])]\<rparr>)"
  using assms by (simp add: sendCurrentData_def Let_def emit_def ext_call_def)

text \<open>The calls a method makes are calls of its list, whether it raises or not.\<close>

lemma stmts_ext_calls_trace:
  "set (calls (snd (stmts (map (ext_call fails) cs) s))) \<subseteq> set (calls s) \<union> set cs"
proof (cases "\<forall>c\<in>set cs. \<not> fails c")
  case True
  then show ?thesis by (simp add: stmts_ext_calls_ok)
next
  case False
  let ?rest = "dropWhile (\<lambda>c. \<not> fails c) cs"
  from False have "?rest \<noteq> []" by (simp add: dropWhile_eq_Nil_conv)
  then have "hd ?rest \<in> set ?rest" by simp
  then have "hd ?rest \<in> set cs" by (rule set_dropWhileD)
  moreover have "set (takeWhile (\<lambda>c. \<not> fails c) cs) \<subseteq> set cs" by (rule set_takeWhileD [THEN conjunct1, THEN subsetI])
  ultimately show ?thesis by (auto simp add: stmts_ext_calls_first_failure [OF False])
qed

lemma open_calls_no_send: "c \<in> set (open_calls info) \<Longrightarrow> sends_well_framed c"
  by (auto simp add: open_calls_def)

lemma close_calls_no_send: "c \<in> set close_calls \<Longrightarrow> sends_well_framed c"
  by (auto simp add: close_calls_def)

lemma run_op_frames:
  assumes "\<forall>c\<in>set (calls s). sends_well_framed c"
  shows "\<forall>c\<in>set (calls (snd (run_op fails x s))). sends_well_framed c"
proof (cases x)
  case (OnOpen info)
  then show ?thesis
    using assms stmts_ext_calls_trace [of fails "open_calls info" s] open_calls_no_send [of _ info]
    by (auto simp add: on_open_steps)
next
  case OnClose
  then show ?thesis
    using assms stmts_ext_calls_trace [of fails close_calls s] close_calls_no_send
    by (auto simp add: on_close_steps)
next
  case (SendCurrentData data)
  then show ?thesis using assms
    by (cases "objs s data") (simp_all add: sendCurrentData_def Let_def emit_def ext_call_def frame_tags_def)
next
  case (Handle h event payload)
  then show ?thesis using assms by (cases h) (simp_all add: emit_defs frame_tags_def)
qed (use assms in \<open>simp_all add: emit_defs frame_tags_def on_message_def addLog_def addMessage_def addTemperature_def\<close>)

lemma run_ops_frames:
  "\<forall>c\<in>set (calls s). sends_well_framed c \<Longrightarrow>
   \<forall>c\<in>set (calls (run_ops fails xs s)). sends_well_framed c"
proof (induction xs arbitrary: s)
  case Nil
  then show ?case by simp
next
  case (Cons x xs)
  from Cons.prems have "\<forall>c\<in>set (calls (snd (run_op fails x s))). sends_well_framed c"
    by (rule run_op_frames)
  then show ?case unfolding run_ops.simps by (rule Cons.IH)
qed

section \<open>Calls that do not drain\<close>

text \<open>
  Every operation other than \<open>sendCurrentData\<close> appends what it is given to the
  backlogs and the calls it makes to the trace, and changes nothing else. What it
  returns and what it calls do not depend on the backlogs.
\<close>

lemma stmts_ext_calls_effect:
  "\<exists>r tr. \<forall>s. stmts (map (ext_call fails) cs) s = (r, s\<lparr>calls := calls s @ tr\<rparr>)"
proof (cases "\<forall>c\<in>set cs. \<not> fails c")
  case True
  then show ?thesis using stmts_ext_calls_ok [OF True] by blast
next
  case False
  then show ?thesis using stmts_ext_calls_first_failure [OF False] by blast
qed

lemma emit_effect:
  "\<exists>r tr. \<forall>s. emit fails type payload s = (r, s\<lparr>calls := calls s @ tr\<rparr>)"
  by (simp add: emit_def ext_call_def) (rule exI, rule allI, rule refl)

lemmas op_defs = sendHistoryData_def sendUpdateTrigger_def sendFeedbackCommandOutput_def
  sendTimelapseConfig_def onMovieDone_def onSlicingStarted_def onSlicingDone_def
  onSlicingFailed_def

lemma run_op_effect:
  assumes "\<not> is_drain x"
  shows "\<exists>r tr. \<forall>s. run_op fails x s =
           (r, s\<lparr>temperatureBacklog := temperatureBacklog s @ appended_temperatures [x],
                  logBacklog := logBacklog s @ appended_logs [x],
                  messageBacklog := messageBacklog s @ appended_messages [x],
                  calls := calls s @ tr\<rparr>)"
proof (cases x)
  case (OnOpen info)
  then show ?thesis using stmts_ext_calls_effect [of fails "open_calls info"]
    by (simp add: on_open_steps)
next
  case OnClose
  then show ?thesis using stmts_ext_calls_effect [of fails close_calls]
    by (simp add: on_close_steps)
next
  case (OnMessage message)
  have "\<forall>s. run_op fails x s =
           (None, s\<lparr>temperatureBacklog := temperatureBacklog s @ appended_temperatures [x],
                  logBacklog := logBacklog s @ appended_logs [x],
                  messageBacklog := messageBacklog s @ appended_messages [x],
                  calls := calls s @ []\<rparr>)"
    using OnMessage by (simp add: on_message_def)
  then show ?thesis by blast
next
  case (SendCurrentData data)
  with assms show ?thesis by simp
next
  case (SendHistoryData data)
  then show ?thesis using emit_effect [of fails "''history''" data]
    by (simp add: op_defs)
next
  case (SendUpdateTrigger ty payload)
  then show ?thesis using emit_effect [of fails "''updateTrigger''" "PDict [(''type'', ty), (''payload'', payload)]"]
    by (simp add: op_defs)
next
  case (SendFeedbackCommandOutput name out)
  then show ?thesis using emit_effect [of fails "''feedbackCommandOutput''" "PDict [(''name'', name), (''output'', out)]"]
    by (simp add: op_defs)
next
  case (SendTimelapseConfig timelapseConfig)
  then show ?thesis using emit_effect [of fails "''timelapse''" timelapseConfig]
    by (simp add: op_defs)
next
  case (AddLog data)
  have "\<forall>s. run_op fails x s =
           (None, s\<lparr>temperatureBacklog := temperatureBacklog s @ appended_temperatures [x],
                  logBacklog := logBacklog s @ appended_logs [x],
                  messageBacklog := messageBacklog s @ appended_messages [x],
                  calls := calls s @ []\<rparr>)"
    using AddLog by (simp add: addLog_def)
  then show ?thesis by blast
next
  case (AddMessage data)
  have "\<forall>s. run_op fails x s =
           (None, s\<lparr>temperatureBacklog := temperatureBacklog s @ appended_temperatures [x],
                  logBacklog := logBacklog s @ appended_logs [x],
                  messageBacklog := messageBacklog s @ appended_messages [x],
                  calls := calls s @ []\<rparr>)"
    using AddMessage by (simp add: addMessage_def)
  then show ?thesis by blast
next
  case (AddTemperature data)
  have "\<forall>s. run_op fails x s =
           (None, s\<lparr>temperatureBacklog := temperatureBacklog s @ appended_temperatures [x],
                  logBacklog := logBacklog s @ appended_logs [x],
                  messageBacklog := messageBacklog s @ appended_messages [x],
                  calls := calls s @ []\<rparr>)"
    using AddTemperature by (simp add: addTemperature_def)
  then show ?thesis by blast
next
  case (Handle h event payload)
  then show ?thesis
    using emit_effect [of fails "''updateTrigger''" "PDict [(''type'', PStr ''timelapseFiles''), (''payload'', PNone)]"]
      emit_effect [of fails "''updateTrigger''" "PDict [(''type'', PStr ''slicingStarted''), (''payload'', payload)]"]
      emit_effect [of fails "''updateTrigger''" "PDict [(''type'', PStr ''slicingDone''), (''payload'', payload)]"]
      emit_effect [of fails "''updateTrigger''" "PDict [(''type'', PStr ''slicingFailed''), (''payload'', payload)]"]
    by (cases h) (simp_all add: op_defs)
qed

lemma appended_temperatures_Cons:
  "appended_temperatures (x # xs) = appended_temperatures [x] @ appended_temperatures xs"
  by (cases x) simp_all

lemma appended_logs_Cons:
  "appended_logs (x # xs) = appended_logs [x] @ appended_logs xs"
  by (cases x) simp_all

lemma appended_messages_Cons:
  "appended_messages (x # xs) = appended_messages [x] @ appended_messages xs"
  by (cases x) simp_all

lemma run_ops_effect:
  "\<not> list_ex is_drain xs \<Longrightarrow>
   \<exists>tr. \<forall>s. run_ops fails xs s =
           s\<lparr>temperatureBacklog := temperatureBacklog s @ appended_temperatures xs,
              logBacklog := logBacklog s @ appended_logs xs,
              messageBacklog := messageBacklog s @ appended_messages xs,
              calls := calls s @ tr\<rparr>"
proof (induction xs)
  case Nil
  have "\<forall>s. run_ops fails [] s =
           s\<lparr>temperatureBacklog := temperatureBacklog s @ appended_temperatures [],
              logBacklog := logBacklog s @ appended_logs [],
              messageBacklog := messageBacklog s @ appended_messages [],
              calls := calls s @ []\<rparr>" by simp
  then show ?case by blast
next
  case (Cons x xs)
  from Cons.prems have x: "\<not> is_drain x" and xs: "\<not> list_ex is_drain xs" by simp_all
  from run_op_effect [OF x, of fails] obtain r tr1 where
    step: "\<And>s. run_op fails x s =
           (r, s\<lparr>temperatureBacklog := temperatureBacklog s @ appended_temperatures [x],
                  logBacklog := logBacklog s @ appended_logs [x],
                  messageBacklog := messageBacklog s @ appended_messages [x],
                  calls := calls s @ tr1\<rparr>)" by blast
  from Cons.IH [OF xs] obtain tr2 where
    rest: "\<And>s. run_ops fails xs s =
           s\<lparr>temperatureBacklog := temperatureBacklog s @ appended_temperatures xs,
              logBacklog := logBacklog s @ appended_logs xs,
              messageBacklog := messageBacklog s @ appended_messages xs,
              calls := calls s @ tr2\<rparr>" by blast
  have "\<forall>s. run_ops fails (x # xs) s =
           s\<lparr>temperatureBacklog := temperatureBacklog s @ appended_temperatures (x # xs),
              logBacklog := logBacklog s @ appended_logs (x # xs),
              messageBacklog := messageBacklog s @ appended_messages (x # xs),
              calls := calls s @ (tr1 @ tr2)\<rparr>"
    by (simp add: step rest appended_temperatures_Cons [of x xs] appended_logs_Cons [of x xs]
          appended_messages_Cons [of x xs])
  then show ?case by blast
qed

section \<open>The lifecycle hooks\<close>

subsection \<open>Closing\<close>

text \<open>
  C2, as the source has it. A call of \<open>on_close\<close> that returns has logged the
  disconnect, then unregistered from the printer, the gcode manager and the timelapse
  module, then fired \<open>ClientClosed\<close>, and only then unsubscribed its four handlers:
  the event is fired between the unregistrations and the unsubscriptions, not after
  both.
\<close>

theorem on_close_order:
  assumes "fst (on_close fails s) = None"
  shows "calls (snd (on_close fails s)) = calls s @
     [LoggerInfo ''Closed client connection'',
      UnregisterCallback Printer,
      UnregisterCallback GcodeManager,
      UnregisterCallback TimelapseModule,
      Fire ''ClientClosed'',
      Unsubscribe ''MovieDone'' OnMovieDone,
      Unsubscribe ''SlicingStarted'' OnSlicingStarted,
      Unsubscribe ''SlicingDone'' OnSlicingDone,
      Unsubscribe ''SlicingFailed'' OnSlicingFailed]"
proof -
  from assms have ok: "\<forall>c\<in>set close_calls. \<not> fails c"
    by (simp only: on_close_steps stmts_ext_calls_fst_None)
  have "on_close fails s = (None, s\<lparr>calls := calls s @ close_calls\<rparr>)"
    by (simp only: on_close_steps stmts_ext_calls_ok [OF ok])
  then show ?thesis by (simp add: close_calls_def)
qed

text \<open>C2, the statement above at a new session whose collaborators all return.\<close>

theorem on_close_order_witness:
  "fst (on_close no_failures (init_session Map.empty)) = None \<and>
   calls (snd (on_close no_failures (init_session Map.empty))) =
     [LoggerInfo ''Closed client connection'',
      UnregisterCallback Printer,
      UnregisterCallback GcodeManager,
      UnregisterCallback TimelapseModule,
      Fire ''ClientClosed'',
      Unsubscribe ''MovieDone'' OnMovieDone,
      Unsubscribe ''SlicingStarted'' OnSlicingStarted,
      Unsubscribe ''SlicingDone'' OnSlicingDone,
      Unsubscribe ''SlicingFailed'' OnSlicingFailed]"
proof -
  have h: "fst (on_close no_failures (init_session Map.empty)) = None"
    by (simp add: on_close_def ext_call_def no_failures_def)
  show ?thesis using h on_close_order [OF h] by (simp add: init_session_def)
qed

text \<open>
  C2 as written places the \<open>ClientClosed\<close> event after every unsubscription. In the
  trace of \<open>on_close\<close> the event comes before the unsubscription of \<open>MovieDone\<close>,
  and no unsubscription of \<open>MovieDone\<close> comes before the event.
\<close>

theorem on_close_fires_before_unsubscribing:
  "occurs_before (Fire ''ClientClosed'') (Unsubscribe ''MovieDone'' OnMovieDone)
     (calls (snd (on_close no_failures (init_session Map.empty)))) \<and>
   \<not> occurs_before (Unsubscribe ''MovieDone'' OnMovieDone) (Fire ''ClientClosed'')
     (calls (snd (on_close no_failures (init_session Map.empty))))"
  by (simp add: on_close_def ext_call_def no_failures_def init_session_def)

text \<open>
  C4, as the source has it. \<open>on_close\<close> has no handler around its steps. When none
  of its calls raises, all three unregistrations and all four unsubscriptions are made.
  When one raises, \<open>on_close\<close> raises the same exception, and its trace ends with
  the call that raised: the steps after it are not attempted.
\<close>

theorem on_close_cleanup:
  "on_close fails s =
     (if \<forall>c\<in>set close_calls. \<not> fails c
      then (None, s\<lparr>calls := calls s @ close_calls\<rparr>)
      else (Some (Raised (hd (dropWhile (\<lambda>c. \<not> fails c) close_calls))),
            s\<lparr>calls := calls s @ takeWhile (\<lambda>c. \<not> fails c) close_calls
                         @ [hd (dropWhile (\<lambda>c. \<not> fails c) close_calls)]\<rparr>))"
proof (cases "\<forall>c\<in>set close_calls. \<not> fails c")
  case True
  have "on_close fails s = (None, s\<lparr>calls := calls s @ close_calls\<rparr>)"
    by (simp only: on_close_steps stmts_ext_calls_ok [OF True])
  then show ?thesis by (simp only: if_P [OF True])
next
  case False
  have "on_close fails s =
      (Some (Raised (hd (dropWhile (\<lambda>c. \<not> fails c) close_calls))),
       s\<lparr>calls := calls s @ takeWhile (\<lambda>c. \<not> fails c) close_calls
                    @ [hd (dropWhile (\<lambda>c. \<not> fails c) close_calls)]\<rparr>)"
    by (simp only: on_close_steps stmts_ext_calls_first_failure [OF False])
  then show ?thesis by (simp only: if_not_P [OF False])
qed

text \<open>
  C4, the statement above at a session whose collaborators all return, and at one
  whose gcode manager raises on \<open>unregisterCallback\<close>.
\<close>

theorem on_close_cleanup_witness:
  "on_close no_failures (init_session Map.empty) =
     (None, init_session Map.empty \<lparr>calls := close_calls\<rparr>) \<and>
   on_close (fails_at (UnregisterCallback GcodeManager)) (init_session Map.empty) =
     (Some (Raised (UnregisterCallback GcodeManager)),
      init_session Map.empty
        \<lparr>calls := [LoggerInfo ''Closed client connection'', UnregisterCallback Printer,
                   UnregisterCallback GcodeManager]\<rparr>)"
  using on_close_cleanup [of no_failures "init_session Map.empty"]
    on_close_cleanup [of "fails_at (UnregisterCallback GcodeManager)" "init_session Map.empty"]
  by (simp add: close_calls_def no_failures_def fails_at_def init_session_def)

text \<open>
  C4 as written has every cleanup step attempted after an earlier one has raised. When
  the printer raises on \<open>unregisterCallback\<close>, \<open>on_close\<close> raises, and neither the
  gcode manager is unregistered from nor \<open>MovieDone\<close> unsubscribed.
\<close>

theorem on_close_stops_at_first_failure:
  "fst (on_close (fails_at (UnregisterCallback Printer)) (init_session Map.empty)) =
     Some (Raised (UnregisterCallback Printer)) \<and>
   UnregisterCallback GcodeManager \<notin>
     set (calls (snd (on_close (fails_at (UnregisterCallback Printer)) (init_session Map.empty)))) \<and>
   Unsubscribe ''MovieDone'' OnMovieDone \<notin>
     set (calls (snd (on_close (fails_at (UnregisterCallback Printer)) (init_session Map.empty))))"
  by (simp add: on_close_def ext_call_def fails_at_def init_session_def)

subsection \<open>Opening\<close>

text \<open>
  C3, as the source has it. A call of \<open>on_open\<close> that returns has logged the remote
  address, then registered with the printer, the gcode manager and the timelapse
  module, then fired \<open>ClientOpened\<close>, then subscribed its four handlers, and last
  asked the timelapse module to notify its callbacks of the current configuration.
\<close>

theorem on_open_order:
  assumes "fst (on_open fails info s) = None"
  shows "calls (snd (on_open fails info s)) = calls s @
     [LoggerInfo (''New connection from client: '' @ getRemoteAddress info),
      RegisterCallback Printer,
      RegisterCallback GcodeManager,
      RegisterCallback TimelapseModule,
      Fire ''ClientOpened'',
      Subscribe ''MovieDone'' OnMovieDone,
      Subscribe ''SlicingStarted'' OnSlicingStarted,
      Subscribe ''SlicingDone'' OnSlicingDone,
      Subscribe ''SlicingFailed'' OnSlicingFailed,
      NotifyCallbacks]"
proof -
  from assms have ok: "\<forall>c\<in>set (open_calls info). \<not> fails c"
    by (simp only: on_open_steps stmts_ext_calls_fst_None)
  have "on_open fails info s = (None, s\<lparr>calls := calls s @ open_calls info\<rparr>)"
    by (simp only: on_open_steps stmts_ext_calls_ok [OF ok])
  then show ?thesis by (simp add: open_calls_def)
qed

text \<open>
  C3, the statement above at a new session behind a proxy, whose collaborators all
  return.
\<close>

theorem on_open_order_witness:
  "fst (on_open no_failures \<lparr>forwarded_for = Some ''10.0.0.7, 192.168.1.1'', ip = ''127.0.0.1''\<rparr>
          (init_session Map.empty)) = None \<and>
   calls (snd (on_open no_failures \<lparr>forwarded_for = Some ''10.0.0.7, 192.168.1.1'', ip = ''127.0.0.1''\<rparr>
          (init_session Map.empty))) =
     [LoggerInfo ''New connection from client: 10.0.0.7'',
      RegisterCallback Printer,
      RegisterCallback GcodeManager,
      RegisterCallback TimelapseModule,
      Fire ''ClientOpened'',
      Subscribe ''MovieDone'' OnMovieDone,
      Subscribe ''SlicingStarted'' OnSlicingStarted,
      Subscribe ''SlicingDone'' OnSlicingDone,
      Subscribe ''SlicingFailed'' OnSlicingFailed,
      NotifyCallbacks]"
proof -
  let ?info = "\<lparr>forwarded_for = Some ''10.0.0.7, 192.168.1.1'', ip = ''127.0.0.1''\<rparr>"
  have h: "fst (on_open no_failures ?info (init_session Map.empty)) = None"
    by (simp add: on_open_def ext_call_def no_failures_def)
  show ?thesis using h on_open_order [OF h]
    by (simp add: init_session_def getRemoteAddress_def)
qed

text \<open>
  C3 as written places the \<open>ClientOpened\<close> event last, after the subscriptions and
  after the timelapse configuration. In the trace of \<open>on_open\<close> the event comes before
  the subscription of \<open>MovieDone\<close>, and neither that subscription nor the timelapse
  notification comes before the event.
\<close>

theorem on_open_fires_before_subscribing:
  "occurs_before (Fire ''ClientOpened'') (Subscribe ''MovieDone'' OnMovieDone)
     (calls (snd (on_open no_failures \<lparr>forwarded_for = None, ip = ''127.0.0.1''\<rparr> (init_session Map.empty)))) \<and>
   \<not> occurs_before (Subscribe ''MovieDone'' OnMovieDone) (Fire ''ClientOpened'')
     (calls (snd (on_open no_failures \<lparr>forwarded_for = None, ip = ''127.0.0.1''\<rparr> (init_session Map.empty)))) \<and>
   \<not> occurs_before NotifyCallbacks (Fire ''ClientOpened'')
     (calls (snd (on_open no_failures \<lparr>forwarded_for = None, ip = ''127.0.0.1''\<rparr> (init_session Map.empty))))"
  by (simp add: on_open_def ext_call_def no_failures_def init_session_def)

section \<open>Frames\<close>

subsection \<open>Transport failures\<close>

text \<open>
  C5, as the source has it. \<open>_emit\<close> calls \<open>self.send\<close> with no handler around it,
  and no emit operation has one either. Every emit operation whose argument has the
  type it needs makes exactly one write, and when that write raises, the operation
  raises the same exception to its caller; nothing is logged and nothing is swallowed.
  It returns normally exactly when the write does.
\<close>

theorem emit_failure_propagates:
  assumes "is_emit x" and "fst (run_op fails x s) \<noteq> Some AttributeError"
  shows "\<exists>frame. calls (snd (run_op fails x s)) = calls s @ [Send frame] \<and>
           fst (run_op fails x s) = (if fails (Send frame) then Some (Raised (Send frame)) else None)"
proof (cases x)
  case (SendCurrentData data)
  with assms(2) show ?thesis
    by (cases "objs s data") (simp_all add: sendCurrentData_def Let_def emit_def ext_call_def)
next
  case (Handle h event payload)
  then show ?thesis by (cases h) (simp_all add: emit_defs)
qed (use assms(1) in \<open>simp_all add: emit_defs\<close>)

text \<open>C5, the statement above for \<open>sendHistoryData\<close> on a transport whose every write raises.\<close>

theorem emit_failure_propagates_witness:
  "is_emit (SendHistoryData PNone) \<and>
   fst (run_op dead_transport (SendHistoryData PNone) (init_session Map.empty)) \<noteq> Some AttributeError \<and>
   (\<exists>frame. calls (snd (run_op dead_transport (SendHistoryData PNone) (init_session Map.empty))) =
        calls (init_session Map.empty) @ [Send frame] \<and>
      fst (run_op dead_transport (SendHistoryData PNone) (init_session Map.empty)) =
        (if dead_transport (Send frame) then Some (Raised (Send frame)) else None))"
proof -
  have a: "is_emit (SendHistoryData PNone)" by simp
  have b: "fst (run_op dead_transport (SendHistoryData PNone) (init_session Map.empty)) \<noteq> Some AttributeError"
    by (simp add: sendHistoryData_def emit_def ext_call_def)
  show ?thesis using a b emit_failure_propagates [OF a b] by simp
qed

text \<open>
  C5 as written has the failure of the write swallowed inside the session. On a dead
  transport \<open>sendHistoryData\<close> ends with the exception of the write, and the trace
  holds the write alone: no call on the logger.
\<close>

theorem dead_transport_raises_to_caller:
  "sendHistoryData dead_transport PNone (init_session Map.empty) =
     (Some (Raised (Send (PDict [(''history'', PNone)]))),
      init_session Map.empty \<lparr>calls := [Send (PDict [(''history'', PNone)])]\<rparr>)"
  by (simp add: sendHistoryData_def emit_def ext_call_def init_session_def)

subsection \<open>The pass-through writers\<close>

text \<open>
  C6, as the source has it. Each of \<open>sendHistoryData\<close>, \<open>sendUpdateTrigger\<close>,
  \<open>sendFeedbackCommandOutput\<close> and \<open>sendTimelapseConfig\<close> makes exactly one write
  and changes nothing else of the session, so it neither reads nor modifies a backlog.
  What it writes is the object with the single key that is its tag: the argument
  itself under \<open>history\<close> and under \<open>timelapse\<close>, the object with the keys
  \<open>type\<close> and \<open>payload\<close> under \<open>updateTrigger\<close>, the object with the keys
  \<open>name\<close> and \<open>output\<close> under \<open>feedbackCommandOutput\<close>.
\<close>

theorem pass_through_writers:
  "snd (sendHistoryData fails data s) =
     s\<lparr>calls := calls s @ [Send (PDict [(''history'', data)])]\<rparr> \<and>
   snd (sendUpdateTrigger fails type payload s) =
     s\<lparr>calls := calls s @
        [Send (PDict [(''updateTrigger'', PDict [(''type'', type), (''payload'', payload)])])]\<rparr> \<and>
   snd (sendFeedbackCommandOutput fails name output s) =
     s\<lparr>calls := calls s @
        [Send (PDict [(''feedbackCommandOutput'', PDict [(''name'', name), (''output'', output)])])]\<rparr> \<and>
   snd (sendTimelapseConfig fails timelapseConfig s) =
     s\<lparr>calls := calls s @ [Send (PDict [(''timelapse'', timelapseConfig)])]\<rparr>"
  by (simp add: emit_defs)

text \<open>
  C6 as written gives the written object the two keys \<open>type\<close> and \<open>payload\<close>.
  \<open>sendHistoryData(1)\<close> writes the object with the one key \<open>history\<close>.
\<close>

theorem history_frame_is_not_type_payload:
  "calls (snd (sendHistoryData no_failures (PInt 1) (init_session Map.empty))) =
     [Send (PDict [(''history'', PInt 1)])] \<and>
   calls (snd (sendHistoryData no_failures (PInt 1) (init_session Map.empty))) \<noteq>
     [Send (PDict [(''type'', PStr ''history''), (''payload'', PInt 1)])]"
  by (simp add: sendHistoryData_def emit_def ext_call_def init_session_def)

subsection \<open>Wire framing\<close>

text \<open>
  C7. Whatever is called on a session after its creation, in any order and whatever the
  collaborators do, every object it has written to the connection has exactly one
  key, that key is one of \<open>current\<close>, \<open>history\<close>, \<open>updateTrigger\<close>,
  \<open>feedbackCommandOutput\<close> and \<open>timelapse\<close>, and it maps to the payload.
\<close>

theorem every_frame_has_one_tag_key:
  assumes "Send frame \<in> set (calls (run_ops fails xs (init_session store)))"
  shows "\<exists>tag payload. frame = PDict [(tag, payload)] \<and> tag \<in> set frame_tags"
proof -
  have "\<forall>c\<in>set (calls (init_session store)). sends_well_framed c" by (simp add: init_session_def)
  then have "\<forall>c\<in>set (calls (run_ops fails xs (init_session store))). sends_well_framed c"
    by (rule run_ops_frames)
  with assms have "sends_well_framed (Send frame)" by blast
  then have "well_framed frame" by simp
  then show ?thesis by (cases frame rule: well_framed.cases) simp_all
qed

text \<open>C7, the statement above for the frame of a snapshot sent after one temperature.\<close>

theorem every_frame_has_one_tag_key_witness:
  "Send (PDict [(''current'', PRef 0)]) \<in>
     set (calls (run_ops no_failures [AddTemperature (PInt 200), SendCurrentData 0]
                   (init_session [0 \<mapsto> []]))) \<and>
   (\<exists>tag payload. PDict [(''current'', PRef 0)] = PDict [(tag, payload)] \<and> tag \<in> set frame_tags)"
proof -
  have h: "Send (PDict [(''current'', PRef 0)]) \<in>
     set (calls (run_ops no_failures [AddTemperature (PInt 200), SendCurrentData 0]
                   (init_session [0 \<mapsto> []])))"
    by (simp add: sendCurrentData_def Let_def emit_def ext_call_def addTemperature_def
          init_session_def no_failures_def)
  show ?thesis using h every_frame_has_one_tag_key [OF h] by simp
qed

subsection \<open>The handler of \<open>MovieDone\<close>\<close>

text \<open>
  C8. The handler that \<open>on_open\<close> subscribes to \<open>MovieDone\<close> is \<open>_onMovieDone\<close>
  and no other. Called with any event and any payload, it makes exactly one write, of
  the \<open>updateTrigger\<close> frame whose payload has \<open>type\<close> \<open>timelapseFiles\<close> (and
  \<open>payload\<close> \<open>None\<close>), and changes nothing else of the session.
\<close>

theorem movie_done_handler:
  "(Subscribe ''MovieDone'' h \<in> set (calls (snd (on_open no_failures info (init_session store)))))
     = (h = OnMovieDone) \<and>
   snd (run_handler fails OnMovieDone event payload s) =
     s\<lparr>calls := calls s @
        [Send (PDict [(''updateTrigger'',
                      PDict [(''type'', PStr ''timelapseFiles''), (''payload'', PNone)])])]\<rparr>"
  by (auto simp add: on_open_def no_failures_def init_session_def emit_defs)

section \<open>The snapshot\<close>

subsection \<open>The caller's object\<close>

text \<open>
  C10. \<open>sendCurrentData\<close> changes the dictionary object that the caller passed: after
  the call the caller's address holds the updated dictionary, no other object has
  changed, and the payload of the frame is that same address. The keys
  \<open>temperatures\<close>, \<open>logs\<close> and \<open>messages\<close> of the object are bound to the taken
  backlogs whatever the caller had stored under them; every other key keeps its value.
\<close>

theorem sendCurrentData_updates_in_place:
  assumes "objs s data = Some d"
  shows "\<exists>d'. calls (snd (sendCurrentData fails data s)) =
              calls s @ [Send (PDict [(''current'', PRef data)])] \<and>
            objs (snd (sendCurrentData fails data s)) = (objs s)(data \<mapsto> d') \<and>
            dict_get d' ''temperatures'' = Some (PList (temperatureBacklog s)) \<and>
            dict_get d' ''logs'' = Some (PList (logBacklog s)) \<and>
            dict_get d' ''messages'' = Some (PList (messageBacklog s)) \<and>
            (\<forall>k. k \<notin> {''temperatures'', ''logs'', ''messages''} \<longrightarrow> dict_get d' k = dict_get d k) \<and>
            dict_keys d' = {''temperatures'', ''logs'', ''messages''} \<union> dict_keys d"
proof (rule exI [where x = "dict_update d
            [(''temperatures'', PList (temperatureBacklog s)),
             (''logs'', PList (logBacklog s)),
             (''messages'', PList (messageBacklog s))]"])
qed (simp add: sendCurrentData_result [OF assms] dict_get_backlogs dict_keys_backlogs
      del: dict_update.simps)

text \<open>
  C10, the statement above for a caller whose dictionary already has the key
  \<open>logs\<close>: its value is replaced by the drained log backlog.
\<close>

theorem sendCurrentData_updates_in_place_witness:
  "objs (init_session [0 \<mapsto> [(''state'', PStr ''printing''), (''logs'', PStr ''mine'')]]) 0 =
     Some [(''state'', PStr ''printing''), (''logs'', PStr ''mine'')] \<and>
   calls (snd (sendCurrentData no_failures 0
      (snd (addLog (PStr ''line 1'')
         (init_session [0 \<mapsto> [(''state'', PStr ''printing''), (''logs'', PStr ''mine'')]]))))) =
     [Send (PDict [(''current'', PRef 0)])] \<and>
   objs (snd (sendCurrentData no_failures 0
      (snd (addLog (PStr ''line 1'')
         (init_session [0 \<mapsto> [(''state'', PStr ''printing''), (''logs'', PStr ''mine'')]]))))) 0 =
     Some [(''state'', PStr ''printing''), (''logs'', PList [PStr ''line 1'']),
           (''temperatures'', PList []), (''messages'', PList [])]"
proof -
  let ?s = "snd (addLog (PStr ''line 1'')
         (init_session [0 \<mapsto> [(''state'', PStr ''printing''), (''logs'', PStr ''mine'')]]))"
  have h: "objs ?s 0 = Some [(''state'', PStr ''printing''), (''logs'', PStr ''mine'')]"
    by (simp add: addLog_def init_session_def)
  show ?thesis
    using h sendCurrentData_updates_in_place [OF h, of no_failures]
    by (simp add: sendCurrentData_def Let_def emit_def ext_call_def addLog_def
          init_session_def dict_setitem_def no_failures_def)
qed

subsection \<open>Draining\<close>

text \<open>A session is drained when it is created and after every \<open>sendCurrentData\<close>.\<close>

lemma drained_init: "drained (init_session store)"
  by (simp add: drained_def init_session_def)

lemma drained_after_sendCurrentData: "drained (snd (sendCurrentData fails data s))"
  by (cases "objs s data") (simp_all add: sendCurrentData_def Let_def emit_def ext_call_def drained_def)

text \<open>
  C1. Take a drained session, then any calls that are not \<open>sendCurrentData\<close>
  (among them any number of \<open>addTemperature\<close>, \<open>addLog\<close> and \<open>addMessage\<close>),
  then one \<open>sendCurrentData\<close> with a dictionary object. The call makes exactly one
  write, of the \<open>current\<close> frame whose payload is that object. In the object the keys
  \<open>temperatures\<close>, \<open>logs\<close> and \<open>messages\<close> are bound to exactly the records
  appended to the matching backlog since the drain, in the order of the appends (the
  empty list for a backlog without appends); every key of the caller is still there,
  and those other than the three keep their values. After the call the three
  backlogs are empty. This holds whether the write raises or not.
\<close>

theorem sendCurrentData_snapshot:
  assumes "drained s" and "\<not> list_ex is_drain xs" and "objs s data = Some d"
  shows "\<exists>d'. calls (snd (sendCurrentData fails data (run_ops fails xs s))) =
              calls (run_ops fails xs s) @ [Send (PDict [(''current'', PRef data)])] \<and>
            objs (snd (sendCurrentData fails data (run_ops fails xs s))) data = Some d' \<and>
            dict_get d' ''temperatures'' = Some (PList (appended_temperatures xs)) \<and>
            dict_get d' ''logs'' = Some (PList (appended_logs xs)) \<and>
            dict_get d' ''messages'' = Some (PList (appended_messages xs)) \<and>
            dict_keys d \<subseteq> dict_keys d' \<and>
            (\<forall>k. k \<notin> {''temperatures'', ''logs'', ''messages''} \<longrightarrow> dict_get d' k = dict_get d k) \<and>
            drained (snd (sendCurrentData fails data (run_ops fails xs s)))"
proof -
  let ?s1 = "run_ops fails xs s"
  from run_ops_effect [OF assms(2), of fails] obtain tr where
    "run_ops fails xs s =
       s\<lparr>temperatureBacklog := temperatureBacklog s @ appended_temperatures xs,
          logBacklog := logBacklog s @ appended_logs xs,
          messageBacklog := messageBacklog s @ appended_messages xs,
          calls := calls s @ tr\<rparr>" by blast
  with assms(1) have s1: "?s1 =
       s\<lparr>temperatureBacklog := appended_temperatures xs,
          logBacklog := appended_logs xs,
          messageBacklog := appended_messages xs,
          calls := calls s @ tr\<rparr>" by (simp add: drained_def)
  have t: "temperatureBacklog ?s1 = appended_temperatures xs"
    and l: "logBacklog ?s1 = appended_logs xs"
    and m: "messageBacklog ?s1 = appended_messages xs"
    and o: "objs ?s1 data = Some d"
    by (simp_all add: s1 assms(3))
  show ?thesis
  proof (rule exI [where x = "dict_update d
            [(''temperatures'', PList (appended_temperatures xs)),
             (''logs'', PList (appended_logs xs)),
             (''messages'', PList (appended_messages xs))]"])
  qed (auto simp add: sendCurrentData_result [OF o] t l m dict_get_backlogs dict_keys_backlogs
        drained_def simp del: dict_update.simps)
qed

text \<open>
  C1, the statement above for three \<open>addTemperature({t: 200})\<close> on a new session
  followed by \<open>sendCurrentData({state: "printing"})\<close>.
\<close>

theorem sendCurrentData_snapshot_witness:
  "drained (init_session [0 \<mapsto> [(''state'', PStr ''printing'')]]) \<and>
   \<not> list_ex is_drain
      [AddTemperature (PDict [(''t'', PInt 200)]), AddTemperature (PDict [(''t'', PInt 200)]),
       AddTemperature (PDict [(''t'', PInt 200)])] \<and>
   objs (init_session [0 \<mapsto> [(''state'', PStr ''printing'')]]) 0 =
     Some [(''state'', PStr ''printing'')] \<and>
   snd (sendCurrentData no_failures 0
     (run_ops no_failures
        [AddTemperature (PDict [(''t'', PInt 200)]), AddTemperature (PDict [(''t'', PInt 200)]),
         AddTemperature (PDict [(''t'', PInt 200)])]
        (init_session [0 \<mapsto> [(''state'', PStr ''printing'')]]))) =
     \<lparr>temperatureBacklog = [], logBacklog = [], messageBacklog = [],
      objs = [0 \<mapsto> [(''state'', PStr ''printing''),
                      (''temperatures'', PList [PDict [(''t'', PInt 200)], PDict [(''t'', PInt 200)],
                                               PDict [(''t'', PInt 200)]]),
                      (''logs'', PList []),
                      (''messages'', PList [])]],
      calls = [Send (PDict [(''current'', PRef 0)])]\<rparr>"
proof -
  let ?s = "init_session [0 \<mapsto> [(''state'', PStr ''printing'')]]"
  let ?xs = "[AddTemperature (PDict [(''t'', PInt 200)]), AddTemperature (PDict [(''t'', PInt 200)]),
       AddTemperature (PDict [(''t'', PInt 200)])]"
  have a: "drained ?s" by (simp add: drained_def init_session_def)
  have b: "\<not> list_ex is_drain ?xs" by simp
  have c: "objs ?s 0 = Some [(''state'', PStr ''printing'')]" by (simp add: init_session_def)
  show ?thesis
    using a b c sendCurrentData_snapshot [OF a b c, of no_failures]
    by (simp add: sendCurrentData_def Let_def emit_def ext_call_def addTemperature_def
          init_session_def dict_setitem_def no_failures_def)
qed

section \<open>Callbacks after close\<close>

text \<open>
  On a connection, a call runs the method of the class on the session. The
  transport is closed once \<open>on_close\<close> has been called and stays so, and the client
  of a closed transport receives nothing more; while the transport is open, a frame
  whose write returns reaches the client.
\<close>

lemma sess_conn_call: "sess (conn_call fails x c) = snd (run_op fails x (sess c))"
  by (simp add: conn_call_def Let_def)

lemma closed_after_on_close: "is_closed (conn_call fails OnClose c)"
  by (simp add: conn_call_def Let_def)

lemma closed_conn_call:
  "is_closed c \<Longrightarrow>
     is_closed (conn_call fails x c) \<and> received (conn_call fails x c) = received c"
  by (simp add: conn_call_def Let_def)

lemma closed_conn_calls:
  "is_closed c \<Longrightarrow>
     is_closed (conn_calls fails xs c) \<and> received (conn_calls fails xs c) = received c"
proof (induction xs arbitrary: c)
  case Nil
  then show ?case by simp
next
  case (Cons x xs)
  from Cons.prems have step: "is_closed (conn_call fails x c)"
    and same: "received (conn_call fails x c) = received c"
    by (simp_all add: closed_conn_call)
  from Cons.IH [OF step] same show ?case by simp
qed

lemma open_connection_receives:
  "\<not> is_closed c \<Longrightarrow> \<not> fails (Send (PDict [(''history'', data)])) \<Longrightarrow>
     received (conn_call fails (SendHistoryData data) c) =
       received c @ [PDict [(''history'', data)]]"
  by (simp add: conn_call_def Let_def sendHistoryData_def emit_def ext_call_def)

text \<open>
  The class itself keeps no record of having been closed: on an open and on a closed
  connection alike, \<open>sendCurrentData\<close> gives the caller's object, with the backlogs
  in it, to \<open>send\<close>. That nothing reaches the client after close is the
  transport's doing.
\<close>

lemma sendCurrentData_calls_send_when_closed:
  assumes "objs (sess c) data = Some d"
  shows "calls (sess (conn_call fails (SendCurrentData data) c)) =
           calls (sess c) @ [Send (PDict [(''current'', PRef data)])]"
  by (simp add: sess_conn_call sendCurrentData_result [OF assms])

text \<open>
  C9. Take a connection on which \<open>on_close\<close> has run (whether it returned or
  raised), and any calls after it. A stray \<open>addLog\<close>, \<open>addMessage\<close> or
  \<open>addTemperature\<close> then returns without raising; it appends the record to its
  backlog and changes nothing else of the session, so it calls nothing and writes
  nothing. Whatever is called on the session afterwards, \<open>sendCurrentData\<close>
  included, and whatever the collaborators do, the client has received exactly what
  it had received when \<open>on_close\<close> ended: no frame is ever emitted for the record.
\<close>

theorem stray_push_after_close:
  assumes "is_push x"
  shows "fst (run_op fails x (sess (conn_calls fails1 ys (conn_call fails0 OnClose c)))) = None \<and>
         sess (conn_call fails x (conn_calls fails1 ys (conn_call fails0 OnClose c))) =
           (sess (conn_calls fails1 ys (conn_call fails0 OnClose c)))
             \<lparr>temperatureBacklog :=
                temperatureBacklog (sess (conn_calls fails1 ys (conn_call fails0 OnClose c)))
                  @ appended_temperatures [x],
              logBacklog :=
                logBacklog (sess (conn_calls fails1 ys (conn_call fails0 OnClose c)))
                  @ appended_logs [x],
              messageBacklog :=
                messageBacklog (sess (conn_calls fails1 ys (conn_call fails0 OnClose c)))
                  @ appended_messages [x]\<rparr> \<and>
         received (conn_calls fails2 xs
                     (conn_call fails x (conn_calls fails1 ys (conn_call fails0 OnClose c)))) =
           received (conn_call fails0 OnClose c)"
proof -
  let ?closed = "conn_calls fails1 ys (conn_call fails0 OnClose c)"
  have closed: "is_closed ?closed" and before: "received ?closed = received (conn_call fails0 OnClose c)"
    using closed_conn_calls [OF closed_after_on_close, of fails1 ys fails0 c] by simp_all
  from closed have pushed: "is_closed (conn_call fails x ?closed)"
    and same: "received (conn_call fails x ?closed) = received ?closed"
    by (simp_all add: closed_conn_call)
  have later: "received (conn_calls fails2 xs (conn_call fails x ?closed)) = received ?closed"
    using closed_conn_calls [OF pushed, of fails2 xs] same by simp
  from assms have push:
    "fst (run_op fails x (sess ?closed)) = None \<and>
     snd (run_op fails x (sess ?closed)) =
       (sess ?closed)
         \<lparr>temperatureBacklog := temperatureBacklog (sess ?closed) @ appended_temperatures [x],
          logBacklog := logBacklog (sess ?closed) @ appended_logs [x],
          messageBacklog := messageBacklog (sess ?closed) @ appended_messages [x]\<rparr>"
    by (cases x) (simp_all add: addLog_def addMessage_def addTemperature_def)
  show ?thesis using push later before by (simp add: sess_conn_call)
qed

text \<open>
  C9, the statement above for a log line that arrives right after close and is
  followed by \<open>sendCurrentData\<close> and \<open>sendHistoryData\<close>: the line is in the log
  backlog and the client has received nothing.
\<close>

theorem stray_push_after_close_witness:
  "is_push (AddLog (PStr ''late line'')) \<and>
   fst (run_op no_failures (AddLog (PStr ''late line''))
          (sess (conn_calls no_failures []
             (conn_call no_failures OnClose
                \<lparr>sess = init_session [0 \<mapsto> []], is_closed = False, received = []\<rparr>)))) = None \<and>
   logBacklog (sess (conn_call no_failures (AddLog (PStr ''late line''))
          (conn_calls no_failures []
             (conn_call no_failures OnClose
                \<lparr>sess = init_session [0 \<mapsto> []], is_closed = False, received = []\<rparr>)))) =
     [PStr ''late line''] \<and>
   received (conn_calls no_failures [SendCurrentData 0, SendHistoryData PNone]
      (conn_call no_failures (AddLog (PStr ''late line''))
          (conn_calls no_failures []
             (conn_call no_failures OnClose
                \<lparr>sess = init_session [0 \<mapsto> []], is_closed = False, received = []\<rparr>)))) = []"
proof -
  have a: "is_push (AddLog (PStr ''late line''))" by simp
  show ?thesis
    using a stray_push_after_close [OF a, of no_failures no_failures "[]" no_failures
        "\<lparr>sess = init_session [0 \<mapsto> []], is_closed = False, received = []\<rparr>"
        no_failures "[SendCurrentData 0, SendHistoryData PNone]"]
    by (simp add: conn_call_def Let_def on_close_def ext_call_def no_failures_def
          init_session_def addLog_def)
qed

end
